theory Spec2Isabelle
  imports Main "HOL-Library.Word"
begin

section \<open>The Raft consensus module of raft.go\<close>

text \<open>
  A shallow embedding of the ConsensusModule of \<^verbatim>\<open>raft.go\<close>. Every method is the
  sequential code one goroutine runs. A method takes the replica's record and returns the
  updated record, its result, and the list of synchronisation operations it performed
  (mutex lock and unlock, sends on the two internal channels) in program order. A method
  is followed to its return: what it returns is what the caller sees once every operation
  of that list has completed.
  Debug output (\<^verbatim>\<open>dlog\<close>) and the goroutines a method spawns
  (\<^verbatim>\<open>go cm.runElectionTimer()\<close>) do not change the record and are left out.
  Every call of \<^verbatim>\<open>time.Now()\<close> inside one method call reads the parameter \<open>now\<close>.
\<close>

subsection \<open>Data\<close>

datatype CMState = Follower | Candidate | Leader | Dead

record 'c LogEntry =
  Command :: 'c
  Term :: int

type_synonym time = int

type_synonym bytes = "8 word list"

text \<open>
  Modelled from the spec: the \<^verbatim>\<open>Storage\<close> interface is declared outside raft.go. The
  spec gives it as a key/value store with \<^verbatim>\<open>Set(key, bytes)\<close>, \<^verbatim>\<open>Get(key)\<close> returning
  the bytes and a found flag, and \<^verbatim>\<open>HasData()\<close>: a finite map from keys to byte strings.
  Only \<^verbatim>\<open>Set\<close> is called by the methods of this development.
\<close>

type_synonym Storage = "string \<rightharpoonup> bytes"

definition Set_storage :: "string \<Rightarrow> bytes \<Rightarrow> Storage \<Rightarrow> Storage" where
  "Set_storage key v st = st(key \<mapsto> v)"

text \<open>
  The encoder of \<^verbatim>\<open>encoding/gob\<close> is a library outside the repository: it is a
  parameter of the model. \<open>None\<close> is an encoding error (gob refuses a command whose
  concrete type was never registered).
\<close>

record 'c gob =
  encodeInt :: "int \<Rightarrow> bytes option"
  encodeLog :: "'c LogEntry list \<Rightarrow> bytes option"

text \<open>
  The fields of the Go struct. The mutex \<^verbatim>\<open>mu\<close> and the channels
  \<^verbatim>\<open>newCommitReadyChan\<close> and \<^verbatim>\<open>triggerAEChan\<close> appear in the operation lists
  below; \<^verbatim>\<open>server\<close> and \<^verbatim>\<open>commitChan\<close> are used only by goroutines that are not part
  of this development. Go maps read a missing key as 0 (\<open>map_get\<close>).
\<close>

record 'c ConsensusModule =
  id_cm :: int
  peerIds :: "int list"
  currentTerm :: int
  votedFor :: int
  log :: "'c LogEntry list"
  commitIndex :: int
  lastApplied :: int
  state :: CMState
  electionResetEvent :: time
  nextIndex :: "int \<rightharpoonup> int"
  matchIndex :: "int \<rightharpoonup> int"
  storage :: Storage

definition map_get :: "(int \<rightharpoonup> int) \<Rightarrow> int \<Rightarrow> int" where
  "map_get m k = (case m k of None \<Rightarrow> 0 | Some v \<Rightarrow> v)"

text \<open>Go's \<^verbatim>\<open>int\<close> is 64 bits wide on a 64-bit platform: sums and differences of
  values that are not bounded by the length of a slice wrap around.\<close>

definition int64 :: "int \<Rightarrow> int" where
  "int64 x = (x + 2 ^ 63) mod 2 ^ 64 - 2 ^ 63"

text \<open>A runtime panic (index out of range) and \<^verbatim>\<open>log.Fatal\<close> end the process.\<close>

datatype error = Panic | Fatal

datatype chan = NewCommitReadyChan | TriggerAEChan

datatype event = Lock | Unlock | Send chan

record RequestVoteArgs =
  rv_Term :: int
  CandidateId :: int
  LastLogIndex :: int
  LastLogTerm :: int

record RequestVoteReply =
  rvr_Term :: int
  VotedGranted :: bool

record 'c AppendEntriesArgs =
  ae_Term :: int
  LeaderId :: int
  PrevLogIndex :: int
  PrevLogTerm :: int
  Entries :: "'c LogEntry list"
  LeaderCommit :: int

record AppendEntriesReply =
  aer_Term :: int
  Success :: bool

text \<open>The state of a replica as \<^verbatim>\<open>NewConsensusModule\<close> builds it when the storage has no
  data.\<close>

definition NewConsensusModule :: "int \<Rightarrow> int list \<Rightarrow> 'c ConsensusModule" where
  "NewConsensusModule i peers =
     \<lparr>id_cm = i, peerIds = peers, currentTerm = 0, votedFor = -1, log = [],
      commitIndex = -1, lastApplied = -1, state = Follower, electionResetEvent = 0,
      nextIndex = Map.empty, matchIndex = Map.empty, storage = Map.empty\<rparr>"

subsection \<open>Helpers and role transitions\<close>

definition lastLogIndexAndTerm :: "'c ConsensusModule \<Rightarrow> int \<times> int" where
  "lastLogIndexAndTerm cm =
     (if length (log cm) > 0
      then (int (length (log cm)) - 1, Term (log cm ! (length (log cm) - 1)))
      else (-1, -1))"

text \<open>Modelled from the spec: \<^verbatim>\<open>intMin\<close> is declared outside raft.go; the spec writes
  the call as \<open>min(leaderCommit, len(log) - 1)\<close>.\<close>

definition intMin :: "int \<Rightarrow> int \<Rightarrow> int" where
  "intMin a b = (if a < b then a else b)"

definition becomeFollower :: "time \<Rightarrow> int \<Rightarrow> 'c ConsensusModule \<Rightarrow> 'c ConsensusModule" where
  "becomeFollower now t cm =
     cm\<lparr>state := Follower, currentTerm := t, votedFor := -1, electionResetEvent := now\<rparr>"

definition startElection :: "time \<Rightarrow> 'c ConsensusModule \<Rightarrow> 'c ConsensusModule" where
  "startElection now cm =
     cm\<lparr>state := Candidate, currentTerm := int64 (currentTerm cm + 1),
        electionResetEvent := now, votedFor := id_cm cm\<rparr>"

subsection \<open>Persistence\<close>

text \<open>The three values are encoded and stored one after the other; an encoding error is
  \<^verbatim>\<open>log.Fatal\<close>.\<close>

definition persistToStorage :: "'c gob \<Rightarrow> 'c ConsensusModule \<Rightarrow> error + 'c ConsensusModule" where
  "persistToStorage enc cm =
     (case encodeInt enc (currentTerm cm) of
        None \<Rightarrow> Inl Fatal
      | Some termData \<Rightarrow>
          let st1 = Set_storage ''currentTerm'' termData (storage cm)
          in (case encodeInt enc (votedFor cm) of
                None \<Rightarrow> Inl Fatal
              | Some votedData \<Rightarrow>
                  let st2 = Set_storage ''votedFor'' votedData st1
                  in (case encodeLog enc (log cm) of
                        None \<Rightarrow> Inl Fatal
                      | Some logData \<Rightarrow>
                          Inr (cm\<lparr>storage := Set_storage ''log'' logData st2\<rparr>))))"

subsection \<open>Submit\<close>

definition Submit ::
  "'c gob \<Rightarrow> 'c \<Rightarrow> 'c ConsensusModule \<Rightarrow> error + ('c ConsensusModule \<times> bool \<times> event list)" where
  "Submit enc command cm =
     (if state cm = Leader
      then (case persistToStorage enc
                   (cm\<lparr>log := log cm @ [\<lparr>Command = command, Term = currentTerm cm\<rparr>]\<rparr>) of
              Inl e \<Rightarrow> Inl e
            | Inr cm' \<Rightarrow> Inr (cm', True, [Lock, Unlock, Send TriggerAEChan]))
      else Inr (cm, False, [Lock, Unlock]))"

subsection \<open>The RequestVote handler\<close>

text \<open>The reply is an in-out parameter: a Dead replica returns it as it came.\<close>

definition RequestVote ::
  "time \<Rightarrow> RequestVoteArgs \<Rightarrow> RequestVoteReply \<Rightarrow> 'c ConsensusModule
     \<Rightarrow> 'c ConsensusModule \<times> RequestVoteReply \<times> event list" where
  "RequestVote now args reply cm =
     (if state cm = Dead then (cm, reply, [Lock, Unlock])
      else
        let (lastLogIndex, lastLogTerm) = lastLogIndexAndTerm cm;
            cm1 = (if rv_Term args > currentTerm cm
                   then becomeFollower now (rv_Term args) cm else cm)
        in if currentTerm cm1 = rv_Term args \<and>
              (votedFor cm1 = -1 \<or> votedFor cm1 = CandidateId args) \<and>
              (LastLogTerm args > lastLogTerm \<or>
                (LastLogTerm args = lastLogTerm \<and> LastLogIndex args \<ge> lastLogIndex))
           then (cm1\<lparr>votedFor := CandidateId args, electionResetEvent := now\<rparr>,
                 reply\<lparr>VotedGranted := True, rvr_Term := currentTerm cm1\<rparr>,
                 [Lock, Unlock])
           else (cm1, reply\<lparr>VotedGranted := False, rvr_Term := currentTerm cm1\<rparr>,
                 [Lock, Unlock]))"

subsection \<open>The AppendEntries handler\<close>

text \<open>
  The reconciliation loop of lines 570 to 579: \<open>logInsertIndex\<close> and
  \<open>newEntriesIndex\<close> advance together while both are in range and the terms of the
  two entries agree. The loop starts at \<open>PrevLogIndex + 1\<close>, which is not negative once the
  consistency check has passed, and at 0: both indices are natural numbers.
\<close>

function AppendEntries_scan ::
  "'c LogEntry list \<Rightarrow> 'c LogEntry list \<Rightarrow> nat \<Rightarrow> nat \<Rightarrow> nat \<times> nat" where
  "AppendEntries_scan lg es logInsertIndex newEntriesIndex =
     (if logInsertIndex \<ge> length lg \<or> newEntriesIndex \<ge> length es
      then (logInsertIndex, newEntriesIndex)
      else if Term (lg ! logInsertIndex) \<noteq> Term (es ! newEntriesIndex)
      then (logInsertIndex, newEntriesIndex)
      else AppendEntries_scan lg es (logInsertIndex + 1) (newEntriesIndex + 1))"
  by pat_completeness auto
termination
  by (relation "measure (\<lambda>(lg, es, li, ni). length es - ni)") auto

declare AppendEntries_scan.simps [simp del]

text \<open>
  The body of the conditional of line 563, run once the consistency check has passed
  (lines 566 to 591): the reconciliation of the log and the update of \<open>commitIndex\<close>. It
  returns the sends it performed.
\<close>

definition AppendEntries_accepted ::
  "'c AppendEntriesArgs \<Rightarrow> AppendEntriesReply \<Rightarrow> 'c ConsensusModule
     \<Rightarrow> 'c ConsensusModule \<times> AppendEntriesReply \<times> event list" where
  "AppendEntries_accepted args reply cm =
     (let reply1 = reply\<lparr>Success := True\<rparr>;
          (logInsertIndex, newEntriesIndex) =
             AppendEntries_scan (log cm) (Entries args) (nat (PrevLogIndex args + 1)) 0;
          cm1 = (if newEntriesIndex < length (Entries args)
                 then cm\<lparr>log := take logInsertIndex (log cm) @
                                  drop newEntriesIndex (Entries args)\<rparr>
                 else cm)
      in if LeaderCommit args > commitIndex cm1
         then (cm1\<lparr>commitIndex := intMin (LeaderCommit args) (int (length (log cm1)) - 1)\<rparr>,
               reply1, [Send NewCommitReadyChan])
         else (cm1, reply1, []))"

text \<open>
  The consistency check reads \<^verbatim>\<open>cm.log[args.PrevLogIndex]\<close> whenever \<open>PrevLogIndex\<close> is
  not -1 and is below the length of the log: a \<open>PrevLogIndex\<close> below -1 is an index out of
  range there, and the handler panics. The mutex is locked on entry and unlocked by the
  deferred call when the handler returns.
\<close>

definition AppendEntries ::
  "time \<Rightarrow> 'c AppendEntriesArgs \<Rightarrow> AppendEntriesReply \<Rightarrow> 'c ConsensusModule
     \<Rightarrow> error + ('c ConsensusModule \<times> AppendEntriesReply \<times> event list)" where
  "AppendEntries now args reply cm =
     (if state cm = Dead then Inr (cm, reply, [Lock, Unlock])
      else
        let cm1 = (if ae_Term args > currentTerm cm
                   then becomeFollower now (ae_Term args) cm else cm);
            reply1 = reply\<lparr>Success := False\<rparr>
        in if ae_Term args = currentTerm cm1
           then
             let cm2 = (if state cm1 \<noteq> Follower
                        then becomeFollower now (ae_Term args) cm1 else cm1);
                 cm3 = cm2\<lparr>electionResetEvent := now\<rparr>
             in if PrevLogIndex args < -1 \<and> PrevLogIndex args < int (length (log cm3))
                then Inl Panic
                else if PrevLogIndex args = -1 \<or>
                        (PrevLogIndex args < int (length (log cm3)) \<and>
                         PrevLogTerm args = Term (log cm3 ! nat (PrevLogIndex args)))
                then (case AppendEntries_accepted args reply1 cm3 of
                        (cm4, reply2, sends) \<Rightarrow>
                          Inr (cm4, reply2\<lparr>aer_Term := currentTerm cm4\<rparr>,
                               [Lock] @ sends @ [Unlock]))
                else Inr (cm3, reply1\<lparr>aer_Term := currentTerm cm3\<rparr>, [Lock, Unlock])
           else Inr (cm1, reply1\<lparr>aer_Term := currentTerm cm1\<rparr>, [Lock, Unlock]))"

subsection \<open>The leader's handling of an AppendEntries reply\<close>

text \<open>The inner loop of lines 389 to 394 counts the leader itself and every peer of
  \<open>peerIds\<close> whose \<open>matchIndex\<close> has reached \<open>i\<close>.\<close>

fun matchCount_loop :: "(int \<rightharpoonup> int) \<Rightarrow> int \<Rightarrow> int list \<Rightarrow> int \<Rightarrow> int" where
  "matchCount_loop mi i [] matchCount = matchCount"
| "matchCount_loop mi i (peerId # ps) matchCount =
     matchCount_loop mi i ps (if map_get mi peerId \<ge> i then matchCount + 1 else matchCount)"

text \<open>The scan of lines 387 to 399; \<^verbatim>\<open>cm.log[i]\<close> with a negative \<open>i\<close> panics.\<close>

function commit_scan :: "int \<Rightarrow> 'c ConsensusModule \<Rightarrow> error + 'c ConsensusModule" where
  "commit_scan i cm =
     (if i < int (length (log cm))
      then (if i < 0 then Inl Panic
            else if Term (log cm ! nat i) = currentTerm cm
            then commit_scan (i + 1)
                   (if matchCount_loop (matchIndex cm) i (peerIds cm) 1 * 2
                         > int (length (peerIds cm)) + 1
                    then cm\<lparr>commitIndex := i\<rparr> else cm)
            else commit_scan (i + 1) cm)
      else Inr cm)"
  by pat_completeness auto
termination
  by (relation "measure (\<lambda>(i, cm). nat (int (length (log cm)) - i))") auto

declare commit_scan.simps [simp del]

text \<open>
  The code the per-peer goroutine of \<^verbatim>\<open>sendAppendEntries\<close> runs once the call has
  returned without error (lines 373 to 411). \<open>ni\<close> and \<open>entries\<close> are the values the
  goroutine read before it sent the request, \<open>savedCurrentTerm\<close> the term read by
  \<^verbatim>\<open>sendAppendEntries\<close>.
\<close>

definition sendAppendEntries_reply ::
  "time \<Rightarrow> int \<Rightarrow> int \<Rightarrow> 'c LogEntry list \<Rightarrow> int \<Rightarrow> AppendEntriesReply
     \<Rightarrow> 'c ConsensusModule \<Rightarrow> error + ('c ConsensusModule \<times> event list)" where
  "sendAppendEntries_reply now peerId ni entries savedCurrentTerm reply cm =
     (if aer_Term reply > savedCurrentTerm
      then Inr (becomeFollower now (aer_Term reply) cm, [Lock, Unlock])
      else if state cm = Leader \<and> savedCurrentTerm = aer_Term reply
      then
        (if Success reply
         then
           let cm1 = cm\<lparr>nextIndex := (nextIndex cm)(peerId \<mapsto> int64 (ni + int (length entries)))\<rparr>;
               cm2 = cm1\<lparr>matchIndex :=
                            (matchIndex cm1)(peerId \<mapsto> int64 (map_get (nextIndex cm1) peerId - 1))\<rparr>;
               savedCommitIndex = commitIndex cm2
           in (case commit_scan (int64 (commitIndex cm2 + 1)) cm2 of
                 Inl e \<Rightarrow> Inl e
               | Inr cm3 \<Rightarrow>
                   if commitIndex cm3 \<noteq> savedCommitIndex
                   then Inr (cm3, [Lock, Send NewCommitReadyChan, Send TriggerAEChan, Unlock])
                   else Inr (cm3, [Lock, Unlock]))
         else Inr (cm\<lparr>nextIndex := (nextIndex cm)(peerId \<mapsto> int64 (ni - 1))\<rparr>, [Lock, Unlock]))
      else Inr (cm, [Lock, Unlock]))"

subsection \<open>Mutex and channels\<close>

text \<open>A send inside a critical section: \<open>held\<close> says whether the mutex is held before
  the first operation of the list.\<close>

fun sends_outside_mutex :: "bool \<Rightarrow> event list \<Rightarrow> bool" where
  "sends_outside_mutex held [] = True"
| "sends_outside_mutex held (Lock # es) = sends_outside_mutex True es"
| "sends_outside_mutex held (Unlock # es) = sends_outside_mutex False es"
| "sends_outside_mutex held (Send c # es) = (\<not> held \<and> sends_outside_mutex held es)"

text \<open>The capacities \<^verbatim>\<open>NewConsensusModule\<close> gives the two channels.\<close>

fun chan_cap :: "chan \<Rightarrow> nat" where
  "chan_cap NewCommitReadyChan = 16"
| "chan_cap TriggerAEChan = 1"

text \<open>
  A goroutine running a list of operations while no other goroutine receives: \<open>buffered c\<close>
  is the number of values waiting in channel \<open>c\<close>. Go's send statement puts a value into
  a buffer with a free slot and suspends the goroutine on a full one; \<open>None\<close> is the
  goroutine suspended at a send.
\<close>

fun run_sends :: "(chan \<Rightarrow> nat) \<Rightarrow> event list \<Rightarrow> (chan \<Rightarrow> nat) option" where
  "run_sends buffered [] = Some buffered"
| "run_sends buffered (Send c # es) =
     (if buffered c < chan_cap c then run_sends (buffered(c := buffered c + 1)) es else None)"
| "run_sends buffered (Lock # es) = run_sends buffered es"
| "run_sends buffered (Unlock # es) = run_sends buffered es"

subsection \<open>The specification's notions\<close>

text \<open>
  The definitions of this subsection follow the words of the specification, not the code;
  the theorems below compare the code with them.

  The number of leading positions at which the terms of two sequences of entries agree
  ("advance both while the existing entry's term matches the incoming entry's term").
\<close>

fun matching_prefix :: "'c LogEntry list \<Rightarrow> 'c LogEntry list \<Rightarrow> nat" where
  "matching_prefix (a # as) (b # bs) =
     (if Term a = Term b then Suc (matching_prefix as bs) else 0)"
| "matching_prefix as bs = 0"

text \<open>The consistency check: \<open>prevLogIndex\<close> is -1, or it is the index of an entry of the
  log and that entry's term is \<open>prevLogTerm\<close>.\<close>

definition spec_consistent :: "'c LogEntry list \<Rightarrow> int \<Rightarrow> int \<Rightarrow> bool" where
  "spec_consistent lg prevLogIndex prevLogTerm =
     (prevLogIndex = -1 \<or>
      (0 \<le> prevLogIndex \<and> prevLogIndex < int (length lg) \<and>
       Term (lg ! nat prevLogIndex) = prevLogTerm))"

text \<open>The reconciled log: starting at \<open>prevLogIndex + 1\<close>, skip the entries whose terms
  match; when two entries differ or the local log ends, truncate the log there and append
  the remaining incoming entries.\<close>

definition spec_reconcile ::
  "'c LogEntry list \<Rightarrow> int \<Rightarrow> 'c LogEntry list \<Rightarrow> 'c LogEntry list" where
  "spec_reconcile lg prevLogIndex es =
     (let start = nat (prevLogIndex + 1);
          k = matching_prefix (drop start lg) es;
          differ = (start + k < length lg \<and> k < length es);
          log_ends = (length lg \<le> start + k)
      in if differ \<or> log_ends then take (start + k) lg @ drop k es else lg)"

text \<open>An index the leader may commit by counting: the entry there is of the current term,
  and the replicas whose \<open>matchIndex\<close> has reached it, the leader included, are more than
  half of \<open>len(peerIds) + 1\<close>.\<close>

definition spec_committable :: "'c ConsensusModule \<Rightarrow> int \<Rightarrow> bool" where
  "spec_committable cm i =
     (Term (log cm ! nat i) = currentTerm cm \<and>
      2 * (1 + int (length (filter (\<lambda>p. map_get (matchIndex cm) p \<ge> i) (peerIds cm))))
        > int (length (peerIds cm)) + 1)"

text \<open>The storage holds the encodings of the three persistent fields.\<close>

definition storage_in_sync :: "'c gob \<Rightarrow> 'c ConsensusModule \<Rightarrow> bool" where
  "storage_in_sync enc cm =
     (encodeInt enc (currentTerm cm) \<noteq> None \<and>
      storage cm ''currentTerm'' = encodeInt enc (currentTerm cm) \<and>
      encodeInt enc (votedFor cm) \<noteq> None \<and>
      storage cm ''votedFor'' = encodeInt enc (votedFor cm) \<and>
      encodeLog enc (log cm) \<noteq> None \<and>
      storage cm ''log'' = encodeLog enc (log cm))"

subsection \<open>Example replicas\<close>

text \<open>An encoder for the examples: an integer as its low byte, a log as the low bytes of
  its terms.\<close>

definition toy_gob :: "nat gob" where
  "toy_gob = \<lparr>encodeInt = (\<lambda>i. Some [word_of_int i]),
              encodeLog = (\<lambda>l. Some (map (\<lambda>e. word_of_int (Term e)) l))\<rparr>"

text \<open>Replica 1 of three, a follower in term 2 whose second entry was never committed
  (scenario S5 of the specification).\<close>

definition example_follower :: "nat ConsensusModule" where
  "example_follower =
     \<lparr>id_cm = 1, peerIds = [0, 2], currentTerm = 2, votedFor = -1,
      log = [\<lparr>Command = 120, Term = 1\<rparr>, \<lparr>Command = 98, Term = 1\<rparr>],
      commitIndex = 0, lastApplied = 0, state = Follower, electionResetEvent = 0,
      nextIndex = Map.empty, matchIndex = Map.empty, storage = Map.empty\<rparr>"

text \<open>Replica 0 of three, elected leader of term 1 with an empty log, after one command
  has been submitted (scenario S2): no peer has acknowledged the entry yet.\<close>

definition example_leader :: "nat ConsensusModule" where
  "example_leader =
     \<lparr>id_cm = 0, peerIds = [1, 2], currentTerm = 1, votedFor = 0,
      log = [\<lparr>Command = 120, Term = 1\<rparr>],
      commitIndex = -1, lastApplied = -1, state = Leader, electionResetEvent = 0,
      nextIndex = [1 \<mapsto> 0, 2 \<mapsto> 0], matchIndex = [1 \<mapsto> -1, 2 \<mapsto> -1],
      storage = Map.empty\<rparr>"

text \<open>Replica 2 of three, the leader of term 2 of scenario S5, right after its election.\<close>

definition example_leader_S5 :: "nat ConsensusModule" where
  "example_leader_S5 =
     \<lparr>id_cm = 2, peerIds = [0, 1], currentTerm = 2, votedFor = 2,
      log = [\<lparr>Command = 120, Term = 1\<rparr>, \<lparr>Command = 122, Term = 2\<rparr>],
      commitIndex = 0, lastApplied = 0, state = Leader, electionResetEvent = 0,
      nextIndex = [0 \<mapsto> 2, 1 \<mapsto> 2], matchIndex = [0 \<mapsto> -1, 1 \<mapsto> -1],
      storage = Map.empty\<rparr>"

text \<open>The AppendEntries request of scenario S5: the leader of term 2 sends the entry of
  index 1 after the entry of index 0 and term 1, and has committed index 1.\<close>

definition example_append :: "nat AppendEntriesArgs" where
  "example_append =
     \<lparr>ae_Term = 2, LeaderId = 2, PrevLogIndex = 0, PrevLogTerm = 1,
      Entries = [\<lparr>Command = 122, Term = 2\<rparr>], LeaderCommit = 1\<rparr>"

section \<open>Lemmas\<close>

lemma int64_id: "- (2 ^ 63) \<le> x \<Longrightarrow> x < 2 ^ 63 \<Longrightarrow> int64 x = x"
  by (simp add: int64_def)

subsection \<open>The reconciliation loop\<close>

lemma matching_prefix_le: "matching_prefix as bs \<le> length as \<and> matching_prefix as bs \<le> length bs"
  by (induction as bs rule: matching_prefix.induct) auto

lemma matching_prefix_refl: "matching_prefix xs xs = length xs"
  by (induction xs) auto

lemma matching_prefix_replay:
  "matching_prefix (take (matching_prefix as bs) as @ drop (matching_prefix as bs) bs) bs = length bs"
  by (induction as bs rule: matching_prefix.induct) (auto simp: matching_prefix_refl)

lemma scan_matching_prefix:
  "AppendEntries_scan lg es li ni =
     (li + matching_prefix (drop li lg) (drop ni es), ni + matching_prefix (drop li lg) (drop ni es))"
proof (induction lg es li ni rule: AppendEntries_scan.induct)
  case (1 lg es li ni)
  show ?case
  proof (cases "length lg \<le> li \<or> length es \<le> ni")
    case True
    then show ?thesis
      by (subst AppendEntries_scan.simps) auto
  next
    case False
    then have d: "drop li lg = lg ! li # drop (Suc li) lg" "drop ni es = es ! ni # drop (Suc ni) es"
      by (simp_all add: Cons_nth_drop_Suc)
    show ?thesis
    proof (cases "Term (lg ! li) = Term (es ! ni)")
      case True
      with False 1 show ?thesis
        by (subst AppendEntries_scan.simps) (simp add: d)
    next
      case neq: False
      with False show ?thesis
        by (subst AppendEntries_scan.simps) (simp add: d)
    qed
  qed
qed


lemma code_reconcile_eq:
  assumes "spec_consistent lg p t"
    and "AppendEntries_scan lg es (nat (p + 1)) 0 = (li, ni)"
  shows "(if ni < length es then take li lg @ drop ni es else lg) = spec_reconcile lg p es"
proof -
  let ?s = "nat (p + 1)"
  let ?k = "matching_prefix (drop ?s lg) es"
  have li: "li = ?s + ?k" and ni: "ni = ?k"
    using assms(2) by (simp_all add: scan_matching_prefix)
  have le: "?k \<le> length lg - ?s" "?k \<le> length es"
    using matching_prefix_le [of "drop ?s lg" es] by simp_all
  have s: "?s \<le> length lg"
    using assms(1) by (auto simp: spec_consistent_def)
  show ?thesis
  proof (cases "?k < length es")
    case True
    then show ?thesis
      using le s by (auto simp: spec_reconcile_def Let_def li ni)
  next
    case False
    then have "?k = length es" using le by simp
    then show ?thesis
      using le s by (auto simp: spec_reconcile_def Let_def li ni)
  qed
qed

lemma spec_reconcile_consistent:
  assumes "spec_consistent lg p t"
  shows "spec_consistent (spec_reconcile lg p es) p t"
proof (cases "p = -1")
  case True
  then show ?thesis by (simp add: spec_consistent_def)
next
  case False
  with assms have p: "0 \<le> p" "p < int (length lg)" "Term (lg ! nat p) = t"
    by (auto simp: spec_consistent_def)
  then have "nat p < nat (p + 1) + k" "nat p < length lg" for k
    by auto
  then show ?thesis
    using p by (auto simp: spec_consistent_def spec_reconcile_def Let_def nth_append)
qed

lemma spec_reconcile_idem:
  assumes "spec_consistent lg p t"
  shows "spec_reconcile (spec_reconcile lg p es) p es = spec_reconcile lg p es"
proof -
  let ?s = "nat (p + 1)"
  let ?k = "matching_prefix (drop ?s lg) es"
  have le: "?k \<le> length lg - ?s" "?k \<le> length es"
    using matching_prefix_le [of "drop ?s lg" es] by simp_all
  have s: "?s \<le> length lg"
    using assms by (auto simp: spec_consistent_def)
  show ?thesis
  proof (cases "?s + ?k < length lg \<and> ?k < length es \<or> length lg \<le> ?s + ?k")
    case False
    then show ?thesis by (simp add: spec_reconcile_def Let_def)
  next
    case True
    let ?lg' = "take (?s + ?k) lg @ drop ?k es"
    have r: "spec_reconcile lg p es = ?lg'"
      using True by (simp add: spec_reconcile_def Let_def)
    have "drop ?s ?lg' = take ?k (drop ?s lg) @ drop ?k es"
      using s le by (simp add: drop_take)
    then have k': "matching_prefix (drop ?s ?lg') es = length es"
      by (simp add: matching_prefix_replay)
    have len: "length ?lg' = ?s + length es"
      using s le by auto
    have "spec_reconcile ?lg' p es = ?lg'"
      unfolding spec_reconcile_def Let_def k' len
      using le s by (simp del: take_append)
    then show ?thesis by (simp add: r)
  qed
qed


lemma AppendEntries_accepted_props:
  assumes ok: "spec_consistent (log cm) (PrevLogIndex args) t"
    and res: "AppendEntries_accepted args reply cm = (cm', r, sends)"
  shows "log cm' = spec_reconcile (log cm) (PrevLogIndex args) (Entries args)"
    and "state cm' = state cm" and "currentTerm cm' = currentTerm cm"
    and "votedFor cm' = votedFor cm" and "storage cm' = storage cm"
    and "Success r"
proof -
  obtain li ni where scan:
    "AppendEntries_scan (log cm) (Entries args) (nat (PrevLogIndex args + 1)) 0 = (li, ni)"
    by (cases "AppendEntries_scan (log cm) (Entries args) (nat (PrevLogIndex args + 1)) 0")
  note rec = code_reconcile_eq [OF ok scan]
  show "log cm' = spec_reconcile (log cm) (PrevLogIndex args) (Entries args)"
    using res rec by (auto simp: AppendEntries_accepted_def Let_def scan split: if_splits)
  show "state cm' = state cm" "currentTerm cm' = currentTerm cm"
    "votedFor cm' = votedFor cm" "storage cm' = storage cm" "Success r"
    using res by (auto simp: AppendEntries_accepted_def Let_def scan split: if_splits)
qed

lemma AppendEntries_accept:
  assumes alive: "state cm \<noteq> Dead"
    and tm: "currentTerm cm \<le> ae_Term args"
    and ok: "spec_consistent (log cm) (PrevLogIndex args) (PrevLogTerm args)"
  shows "\<exists>cm' tr. AppendEntries now args reply cm =
             Inr (cm', \<lparr>aer_Term = ae_Term args, Success = True\<rparr>, tr) \<and>
           log cm' = spec_reconcile (log cm) (PrevLogIndex args) (Entries args) \<and>
           state cm' = Follower \<and> currentTerm cm' = ae_Term args"
proof -
  define cm1 where "cm1 = (if ae_Term args > currentTerm cm
                           then becomeFollower now (ae_Term args) cm else cm)"
  define cm2 where "cm2 = (if state cm1 \<noteq> Follower
                           then becomeFollower now (ae_Term args) cm1 else cm1)"
  define cm3 where "cm3 = cm2\<lparr>electionResetEvent := now\<rparr>"
  have c3: "log cm3 = log cm" "state cm3 = Follower" "currentTerm cm3 = ae_Term args"
    using tm by (auto simp: cm1_def cm2_def cm3_def becomeFollower_def)
  have c1: "ae_Term args = currentTerm cm1"
    using tm by (auto simp: cm1_def becomeFollower_def)
  obtain cm4 r4 sends where acc:
    "AppendEntries_accepted args (reply\<lparr>Success := False\<rparr>) cm3 = (cm4, r4, sends)"
    by (cases "AppendEntries_accepted args (reply\<lparr>Success := False\<rparr>) cm3") auto
  have ok3: "spec_consistent (log cm3) (PrevLogIndex args) (PrevLogTerm args)"
    using ok c3 by simp
  note props = AppendEntries_accepted_props [OF ok3 acc]
  have r4: "r4 = reply\<lparr>Success := True\<rparr>"
    using acc by (auto simp: AppendEntries_accepted_def Let_def split: if_splits prod.splits)
  have chk: "\<not> (PrevLogIndex args < -1 \<and> PrevLogIndex args < int (length (log cm3)))"
    "PrevLogIndex args = -1 \<or>
       (PrevLogIndex args < int (length (log cm3)) \<and>
        PrevLogTerm args = Term (log cm3 ! nat (PrevLogIndex args)))"
    using ok3 by (auto simp: spec_consistent_def)
  have "AppendEntries now args reply cm =
          Inr (cm4, r4\<lparr>aer_Term := currentTerm cm4\<rparr>, [Lock] @ sends @ [Unlock])"
    unfolding AppendEntries_def Let_def cm1_def [symmetric] cm2_def [symmetric]
      cm3_def [symmetric]
    using alive c1 chk acc by simp
  then show ?thesis
    using props c3 r4 by simp
qed

lemma AppendEntries_Success_D:
  assumes alive: "state cm \<noteq> Dead"
    and res: "AppendEntries now args reply cm = Inr (cm1, r1, tr1)"
    and succ: "Success r1"
  shows "currentTerm cm \<le> ae_Term args \<and>
         spec_consistent (log cm) (PrevLogIndex args) (PrevLogTerm args)"
  using assms
  by (auto simp: AppendEntries_def Let_def becomeFollower_def spec_consistent_def
      split: if_splits prod.splits)


subsection \<open>The commit scan\<close>

lemma matchCount_loop_eq:
  "matchCount_loop mi i ps c = c + int (length (filter (\<lambda>p. map_get mi p \<ge> i) ps))"
  by (induction ps arbitrary: c) auto

lemma spec_committable_commitIndex [simp]:
  "spec_committable (cm\<lparr>commitIndex := c\<rparr>) j = spec_committable cm j"
  by (simp add: spec_committable_def)

lemma commit_scan_props:
  "0 \<le> i \<Longrightarrow>
   \<exists>c. commit_scan i cm = Inr (cm\<lparr>commitIndex := c\<rparr>) \<and>
       ((c = commitIndex cm \<and> (\<forall>j. i \<le> j \<and> j < int (length (log cm)) \<longrightarrow> \<not> spec_committable cm j)) \<or>
        (i \<le> c \<and> c < int (length (log cm)) \<and> spec_committable cm c \<and>
         (\<forall>j. c < j \<and> j < int (length (log cm)) \<longrightarrow> \<not> spec_committable cm j)))"
proof (induction i cm rule: commit_scan.induct)
  case (1 i cm)
  let ?n = "int (length (log cm))"
  show ?case
  proof (cases "i < ?n")
    case False
    then have "commit_scan i cm = Inr (cm\<lparr>commitIndex := commitIndex cm\<rparr>)"
      by (subst commit_scan.simps) simp
    with False show ?thesis by (intro exI [of _ "commitIndex cm"]) auto
  next
    case True
    show ?thesis
    proof (cases "spec_committable cm i")
      case yes: True
      let ?cm = "cm\<lparr>commitIndex := i\<rparr>"
      have step: "commit_scan i cm = commit_scan (i + 1) ?cm"
        using True yes "1.prems"
        by (subst commit_scan.simps) (simp add: spec_committable_def matchCount_loop_eq)
      have nneg: "\<not> i < 0" and next_nneg: "0 \<le> i + 1" using "1.prems" by simp_all
      have tmeq: "Term (log cm ! nat i) = currentTerm cm"
        using yes by (simp add: spec_committable_def)
      have maj: "matchCount_loop (matchIndex cm) i (peerIds cm) 1 * 2
                   > int (length (peerIds cm)) + 1"
        using yes by (simp add: spec_committable_def matchCount_loop_eq)
      from "1.IH"(1) [OF True nneg tmeq next_nneg]
      have "\<exists>c. commit_scan (i + 1) ?cm = Inr (?cm\<lparr>commitIndex := c\<rparr>) \<and>
              ((c = commitIndex ?cm \<and> (\<forall>j. i + 1 \<le> j \<and> j < int (length (log ?cm)) \<longrightarrow> \<not> spec_committable ?cm j)) \<or>
               (i + 1 \<le> c \<and> c < int (length (log ?cm)) \<and> spec_committable ?cm c \<and>
                (\<forall>j. c < j \<and> j < int (length (log ?cm)) \<longrightarrow> \<not> spec_committable ?cm j)))"
        using maj by simp
      then obtain c where c: "commit_scan (i + 1) ?cm = Inr (cm\<lparr>commitIndex := c\<rparr>)"
        and alt: "(c = i \<and> (\<forall>j. i + 1 \<le> j \<and> j < ?n \<longrightarrow> \<not> spec_committable cm j)) \<or>
               (i + 1 \<le> c \<and> c < ?n \<and> spec_committable cm c \<and>
                (\<forall>j. c < j \<and> j < ?n \<longrightarrow> \<not> spec_committable cm j))"
        by auto
      have "i \<le> c \<and> c < ?n \<and> spec_committable cm c \<and>
              (\<forall>j. c < j \<and> j < ?n \<longrightarrow> \<not> spec_committable cm j)"
        using alt True yes by auto
      with c step show ?thesis by auto
    next
      case no: False
      have step: "commit_scan i cm = commit_scan (i + 1) cm"
        using True no "1.prems"
        by (subst commit_scan.simps) (auto simp: spec_committable_def matchCount_loop_eq)
      have ih: "\<exists>c. commit_scan (i + 1) cm = Inr (cm\<lparr>commitIndex := c\<rparr>) \<and>
              ((c = commitIndex cm \<and> (\<forall>j. i + 1 \<le> j \<and> j < ?n \<longrightarrow> \<not> spec_committable cm j)) \<or>
               (i + 1 \<le> c \<and> c < ?n \<and> spec_committable cm c \<and>
                (\<forall>j. c < j \<and> j < ?n \<longrightarrow> \<not> spec_committable cm j)))"
      proof (cases "Term (log cm ! nat i) = currentTerm cm")
        case tmeq: True
        have nneg: "\<not> i < 0" and next_nneg: "0 \<le> i + 1" using "1.prems" by simp_all
        have nomaj: "\<not> matchCount_loop (matchIndex cm) i (peerIds cm) 1 * 2
                   > int (length (peerIds cm)) + 1"
          using no tmeq by (simp add: spec_committable_def matchCount_loop_eq)
        from "1.IH"(1) [OF True nneg tmeq next_nneg] show ?thesis
          using nomaj by simp
      next
        case tmneq: False
        have nneg: "\<not> i < 0" and next_nneg: "0 \<le> i + 1" using "1.prems" by simp_all
        from "1.IH"(2) [OF True nneg tmneq next_nneg] show ?thesis .
      qed
      then obtain c where c: "commit_scan (i + 1) cm = Inr (cm\<lparr>commitIndex := c\<rparr>)"
        and alt: "(c = commitIndex cm \<and> (\<forall>j. i + 1 \<le> j \<and> j < ?n \<longrightarrow> \<not> spec_committable cm j)) \<or>
               (i + 1 \<le> c \<and> c < ?n \<and> spec_committable cm c \<and>
                (\<forall>j. c < j \<and> j < ?n \<longrightarrow> \<not> spec_committable cm j))"
        by auto
      have all: "\<forall>j. i + 1 \<le> j \<and> j < ?n \<longrightarrow> \<not> spec_committable cm j \<Longrightarrow>
                 \<forall>j. i \<le> j \<and> j < ?n \<longrightarrow> \<not> spec_committable cm j"
      proof (intro allI impI)
        fix j assume h: "\<forall>j. i + 1 \<le> j \<and> j < ?n \<longrightarrow> \<not> spec_committable cm j" and j: "i \<le> j \<and> j < ?n"
        show "\<not> spec_committable cm j"
        proof (cases "j = i")
          case True with no show ?thesis by simp
        next
          case False with j have "i + 1 \<le> j" by simp
          with h j show ?thesis by blast
        qed
      qed
      from alt all have
        "(c = commitIndex cm \<and> (\<forall>j. i \<le> j \<and> j < ?n \<longrightarrow> \<not> spec_committable cm j)) \<or>
         (i \<le> c \<and> c < ?n \<and> spec_committable cm c \<and>
          (\<forall>j. c < j \<and> j < ?n \<longrightarrow> \<not> spec_committable cm j))"
        by auto
      with c step show ?thesis by auto
    qed
  qed
qed



section \<open>The claims\<close>

subsection \<open>Persistence in the RPC handlers\<close>

lemma persistToStorage_in_sync:
  "persistToStorage enc cm = Inr cm' \<Longrightarrow> storage_in_sync enc cm'"
  by (auto simp: persistToStorage_def Let_def storage_in_sync_def Set_storage_def
      split: option.splits)

lemma RequestVote_storage:
  "RequestVote now args reply cm = (cm', r, tr) \<Longrightarrow> storage cm' = storage cm"
  by (auto simp: RequestVote_def Let_def becomeFollower_def split: if_splits prod.splits)

lemma AppendEntries_storage:
  "AppendEntries now args reply cm = Inr (cm', r, tr) \<Longrightarrow> storage cm' = storage cm"
  by (auto simp: AppendEntries_def AppendEntries_accepted_def Let_def becomeFollower_def
      split: if_splits prod.splits)

text \<open>
  Claim C1: every call of the RequestVote handler and of the AppendEntries handler on a
  replica that is not Dead persists the state before it returns whenever it changed
  \<open>currentTerm\<close>, \<open>votedFor\<close> or \<open>log\<close>, so that the storage equals the persistent fields
  in memory when the reply is emitted.

  The code does not do this: neither handler calls \<^verbatim>\<open>persistToStorage\<close> (only
  \<^verbatim>\<open>Submit\<close> does), and the two lemmas above show that no handler call writes the
  storage. The theorem runs both handlers on the leader of term 1 right after a
  \<^verbatim>\<open>Submit\<close>, which has written the storage. RequestVote from candidate 1 in term 2
  grants the vote and moves \<open>currentTerm\<close> from 1 to 2 and \<open>votedFor\<close> from 0 to 1;
  AppendEntries from leader 1 in term 2 with one entry succeeds, moves \<open>currentTerm\<close> to 2
  and appends the entry. Both leave the storage as it was, out of step with the fields in
  memory.
\<close>

theorem handlers_do_not_persist:
  "(case Submit toy_gob 121 example_leader of
      Inl e \<Rightarrow> False
    | Inr (cm0, ok, tr0) \<Rightarrow>
        storage_in_sync toy_gob cm0 \<and>
        currentTerm cm0 = 1 \<and> votedFor cm0 = 0 \<and>
        log cm0 = [\<lparr>Command = 120, Term = 1\<rparr>, \<lparr>Command = 121, Term = 1\<rparr>] \<and>
        (case RequestVote 7 \<lparr>rv_Term = 2, CandidateId = 1, LastLogIndex = 1, LastLogTerm = 1\<rparr>
                \<lparr>rvr_Term = 0, VotedGranted = False\<rparr> cm0 of
           (cm', r, tr) \<Rightarrow>
             r = \<lparr>rvr_Term = 2, VotedGranted = True\<rparr> \<and>
             currentTerm cm' = 2 \<and> votedFor cm' = 1 \<and>
             storage cm' = storage cm0 \<and> \<not> storage_in_sync toy_gob cm') \<and>
        (case AppendEntries 7
                \<lparr>ae_Term = 2, LeaderId = 1, PrevLogIndex = 1, PrevLogTerm = 1,
                 Entries = [\<lparr>Command = 122, Term = 2\<rparr>], LeaderCommit = -1\<rparr>
                \<lparr>aer_Term = 0, Success = False\<rparr> cm0 of
           Inl e \<Rightarrow> False
         | Inr (cm', r, tr) \<Rightarrow>
             r = \<lparr>aer_Term = 2, Success = True\<rparr> \<and>
             currentTerm cm' = 2 \<and> votedFor cm' = -1 \<and>
             log cm' = [\<lparr>Command = 120, Term = 1\<rparr>, \<lparr>Command = 121, Term = 1\<rparr>,
                        \<lparr>Command = 122, Term = 2\<rparr>] \<and>
             storage cm' = storage cm0 \<and> \<not> storage_in_sync toy_gob cm'))"
  by (simp add: Submit_def persistToStorage_def toy_gob_def example_leader_def Set_storage_def
        storage_in_sync_def RequestVote_def AppendEntries_def AppendEntries_accepted_def
        AppendEntries_scan.simps lastLogIndexAndTerm_def becomeFollower_def Let_def)

subsection \<open>One vote per term\<close>

lemma AppendEntries_same_term_resets_vote:
  assumes "state cm = Candidate \<or> state cm = Leader"
    and "ae_Term args = currentTerm cm" and "-1 \<le> PrevLogIndex args"
  shows "\<exists>cm' r tr. AppendEntries now args reply cm = Inr (cm', r, tr) \<and>
           currentTerm cm' = currentTerm cm \<and> votedFor cm' = -1 \<and> state cm' = Follower"
  using assms
  by (auto simp: AppendEntries_def AppendEntries_accepted_def Let_def becomeFollower_def
      split: prod.splits)

text \<open>
  Claim C2: on one replica and for every term \<open>t\<close>, over any sequence of RequestVote,
  AppendEntries, startElection and becomeFollower, \<open>votedFor\<close> takes at most one peer id
  other than -1 while \<open>currentTerm\<close> is \<open>t\<close>.

  The code breaks this. Replica 0 of five starts an election: term 1, vote for itself. An
  AppendEntries of term 1 from leader 1 arrives: the replica is a Candidate, so the
  handler calls \<^verbatim>\<open>becomeFollower(args.Term)\<close>, which resets \<open>votedFor\<close> to -1 although
  the term stays 1 (the lemma above: so it is for every Candidate and Leader). A
  RequestVote of term 1 from candidate 2 is then granted: \<open>votedFor\<close> has been 0 and 2 in
  term 1.
\<close>

theorem second_vote_in_one_term:
  "(case AppendEntries 20
              \<lparr>ae_Term = 1, LeaderId = 1, PrevLogIndex = -1, PrevLogTerm = -1,
               Entries = [], LeaderCommit = -1\<rparr>
              \<lparr>aer_Term = 0, Success = False\<rparr>
              (startElection 10 (NewConsensusModule 0 [1, 2, 3, 4] :: nat ConsensusModule)) of
      Inl e \<Rightarrow> False
    | Inr (cm2, r2, tr2) \<Rightarrow>
        (case RequestVote 30
                \<lparr>rv_Term = 1, CandidateId = 2, LastLogIndex = -1, LastLogTerm = -1\<rparr>
                \<lparr>rvr_Term = 0, VotedGranted = False\<rparr> cm2 of
           (cm3, r3, tr3) \<Rightarrow>
             currentTerm (startElection 10 (NewConsensusModule 0 [1, 2, 3, 4]
                            :: nat ConsensusModule)) = 1 \<and>
             votedFor (startElection 10 (NewConsensusModule 0 [1, 2, 3, 4]
                         :: nat ConsensusModule)) = 0 \<and>
             currentTerm cm2 = 1 \<and> votedFor cm2 = -1 \<and>
             currentTerm cm3 = 1 \<and> votedFor cm3 = 2 \<and>
             r3 = \<lparr>rvr_Term = 1, VotedGranted = True\<rparr>))"
  by (simp add: NewConsensusModule_def startElection_def int64_def AppendEntries_def
        AppendEntries_accepted_def AppendEntries_scan.simps RequestVote_def
        lastLogIndexAndTerm_def becomeFollower_def Let_def)

subsection \<open>A failed AppendEntries reply\<close>

text \<open>
  Claim C3, as the specification states it: when the leader processes an unsuccessful
  AppendEntries reply of its own term, the new \<open>nextIndex[peer]\<close> is
  \<open>max(old nextIndex[peer] - 1, 0)\<close>.

  It fails in two ways. With \<open>ni = 0\<close> the code stores -1: there is no clamp. And the code
  subtracts from \<open>ni\<close>, the value read when the request was built, not from the entry of
  \<open>nextIndex\<close> at the time of the reply: when the entry has gone down to 0 in the
  meantime, a late reply to a request built with \<open>ni = 2\<close> moves it up to 1.
\<close>

theorem nextIndex_clamp_counterexample:
  "sendAppendEntries_reply 9 1 0 [\<lparr>Command = 120, Term = 1\<rparr>] 1
      \<lparr>aer_Term = 1, Success = False\<rparr> example_leader
     = Inr (example_leader\<lparr>nextIndex := (nextIndex example_leader)(1 \<mapsto> -1)\<rparr>, [Lock, Unlock]) \<and>
   map_get (nextIndex example_leader) 1 = 0 \<and>
   map_get ((nextIndex example_leader)(1 \<mapsto> -1)) 1 = -1 \<and>
   max (map_get (nextIndex example_leader) 1 - 1) 0 = 0 \<and>
   sendAppendEntries_reply 9 1 2 [] 2
      \<lparr>aer_Term = 2, Success = False\<rparr> (example_leader_S5\<lparr>nextIndex := [0 \<mapsto> 2, 1 \<mapsto> 0]\<rparr>)
     = Inr (example_leader_S5\<lparr>nextIndex := [0 \<mapsto> 2, 1 \<mapsto> 0, 1 \<mapsto> 1]\<rparr>, [Lock, Unlock]) \<and>
   map_get [0 \<mapsto> 2, 1 \<mapsto> 0] 1 = 0 \<and>
   map_get [0 \<mapsto> 2, 1 \<mapsto> 0, 1 \<mapsto> 1] 1 = 1 \<and>
   max (map_get [0 \<mapsto> 2, 1 \<mapsto> 0] 1 - 1) 0 = 0"
  by (simp add: sendAppendEntries_reply_def example_leader_def example_leader_S5_def
      map_get_def int64_def)

text \<open>
  Claim C3, amended: when the leader (\<open>state = Leader\<close>) processes an unsuccessful
  AppendEntries reply whose term is the term the request was sent with, it sets
  \<open>nextIndex[peer]\<close> to \<open>ni - 1\<close>, where \<open>ni\<close> is the value of \<open>nextIndex[peer]\<close> it read
  when it built the request (64-bit arithmetic); nothing else changes, and the value is
  not clamped at 0.
\<close>

theorem reply_failure_nextIndex:
  assumes "state cm = Leader" and "aer_Term reply = savedCurrentTerm" and "\<not> Success reply"
  shows "sendAppendEntries_reply now peerId ni entries savedCurrentTerm reply cm =
           Inr (cm\<lparr>nextIndex := (nextIndex cm)(peerId \<mapsto> int64 (ni - 1))\<rparr>, [Lock, Unlock]) \<and>
         (- (2 ^ 63) < ni \<and> ni < 2 ^ 63 \<longrightarrow> int64 (ni - 1) = ni - 1)"
  using assms by (simp add: sendAppendEntries_reply_def int64_id)

theorem reply_failure_nextIndex_witness:
  "state example_leader_S5 = Leader \<and>
   aer_Term \<lparr>aer_Term = 2, Success = False\<rparr> = 2 \<and>
   \<not> Success \<lparr>aer_Term = 2, Success = False\<rparr> \<and>
   sendAppendEntries_reply 9 1 2 [] 2 \<lparr>aer_Term = 2, Success = False\<rparr> example_leader_S5 =
     Inr (example_leader_S5\<lparr>nextIndex := (nextIndex example_leader_S5)(1 \<mapsto> 1)\<rparr>,
          [Lock, Unlock])"
proof -
  have h: "state example_leader_S5 = Leader" by (simp add: example_leader_S5_def)
  have i: "int64 (2 - 1) = 1" by (simp add: int64_def)
  from reply_failure_nextIndex [OF h, of "\<lparr>aer_Term = 2, Success = False\<rparr>" 2 9 1 2 "[]"]
  show ?thesis using h i by simp
qed

subsection \<open>Channel sends and the mutex\<close>

lemma AppendEntries_accepted_sends:
  "AppendEntries_accepted args reply cm = (cm', r, sends) \<Longrightarrow>
   sends = (if LeaderCommit args > commitIndex cm then [Send NewCommitReadyChan] else [])"
  by (auto simp: AppendEntries_accepted_def Let_def split: if_splits prod.splits)

lemma AppendEntries_trace:
  assumes "AppendEntries now args reply cm = Inr (cm', r, tr)"
  shows "tr = [Lock, Unlock] \<or> tr = [Lock, Send NewCommitReadyChan, Unlock]"
  using assms
  by (auto simp: AppendEntries_def Let_def split: if_splits prod.splits
      dest!: AppendEntries_accepted_sends)

text \<open>
  Claim C4, as the specification states it: no code path sends on the "new commit ready"
  channel or on the "trigger append" channel while it holds the mutex, and every send on
  the "trigger append" channel is non-blocking (a send that would block is skipped).

  It fails on all three paths that send. AppendEntries, on the request of scenario S5,
  sends on "new commit ready" between its lock and its deferred unlock. The leader's reply
  handler, on the first successful reply, sends on both channels before its deferred
  unlock. Submit sends on "trigger append" with Go's plain send statement: run while the
  buffers are full, the goroutine is suspended at that send.
\<close>

theorem sends_counterexample:
  "map_sum id (snd \<circ> snd)
      (AppendEntries 9 example_append \<lparr>aer_Term = 0, Success = False\<rparr> example_follower)
     = Inr [Lock, Send NewCommitReadyChan, Unlock] \<and>
   \<not> sends_outside_mutex False [Lock, Send NewCommitReadyChan, Unlock] \<and>
   map_sum id snd
      (sendAppendEntries_reply 9 1 0 [\<lparr>Command = 120, Term = 1\<rparr>] 1
         \<lparr>aer_Term = 1, Success = True\<rparr> example_leader)
     = Inr [Lock, Send NewCommitReadyChan, Send TriggerAEChan, Unlock] \<and>
   \<not> sends_outside_mutex False [Lock, Send NewCommitReadyChan, Send TriggerAEChan, Unlock] \<and>
   map_sum id (snd \<circ> snd) (Submit toy_gob 121 example_leader)
     = Inr [Lock, Unlock, Send TriggerAEChan] \<and>
   run_sends chan_cap [Lock, Unlock, Send TriggerAEChan] = None"
  by (simp add: AppendEntries_def AppendEntries_accepted_def AppendEntries_scan.simps
      sendAppendEntries_reply_def commit_scan.simps map_get_def int64_def intMin_def
      Submit_def persistToStorage_def toy_gob_def Let_def
      example_follower_def example_leader_def example_append_def)

text \<open>
  Claim C4, amended: Submit sends on the "trigger append" channel only after it has
  released the mutex, and AppendEntries sends on the "new commit ready" channel, when it
  sends at all (the request is accepted and \<open>leaderCommit\<close> is above \<open>commitIndex\<close>), before
  the deferred unlock releases the mutex. Each of the two sends is Go's plain send
  statement: it completes at once when the buffer of its channel (capacity 1 for
  "trigger append", 16 for "new commit ready") has a free slot, and it suspends the
  goroutine on a full buffer; it is never skipped.
\<close>

theorem sends_of_Submit_and_AppendEntries:
  "(Submit enc command cm = Inr (cm', ok, tr) \<longrightarrow>
      sends_outside_mutex False tr \<and>
      run_sends buffered tr =
        (if ok
         then (if buffered TriggerAEChan < chan_cap TriggerAEChan
               then Some (buffered(TriggerAEChan := buffered TriggerAEChan + 1)) else None)
         else Some buffered)) \<and>
   (AppendEntries now args reply cm = Inr (cm2, r, tr2) \<longrightarrow>
      (tr2 = [Lock, Unlock] \<or> tr2 = [Lock, Send NewCommitReadyChan, Unlock]) \<and>
      (state cm \<noteq> Dead \<longrightarrow>
         (tr2 = [Lock, Send NewCommitReadyChan, Unlock] \<longleftrightarrow>
            Success r \<and> LeaderCommit args > commitIndex cm)) \<and>
      run_sends buffered tr2 =
        (if tr2 = [Lock, Unlock] then Some buffered
         else if buffered NewCommitReadyChan < chan_cap NewCommitReadyChan
         then Some (buffered(NewCommitReadyChan := buffered NewCommitReadyChan + 1))
         else None))"
proof -
  have s: "sends_outside_mutex False tr \<and>
      run_sends buffered tr =
        (if ok
         then (if buffered TriggerAEChan < chan_cap TriggerAEChan
               then Some (buffered(TriggerAEChan := buffered TriggerAEChan + 1)) else None)
         else Some buffered)"
    if "Submit enc command cm = Inr (cm', ok, tr)"
    using that by (auto simp: Submit_def split: if_splits sum.splits)
  have a1: "tr2 = [Lock, Unlock] \<or> tr2 = [Lock, Send NewCommitReadyChan, Unlock]"
    if "AppendEntries now args reply cm = Inr (cm2, r, tr2)"
    using that by (rule AppendEntries_trace)
  have a2: "tr2 = [Lock, Send NewCommitReadyChan, Unlock] \<longleftrightarrow>
            Success r \<and> LeaderCommit args > commitIndex cm"
    if "AppendEntries now args reply cm = Inr (cm2, r, tr2)" and "state cm \<noteq> Dead"
    using that
    by (auto simp: AppendEntries_def AppendEntries_accepted_def Let_def becomeFollower_def
        split: if_splits prod.splits)
  have a3: "run_sends buffered tr2 =
        (if tr2 = [Lock, Unlock] then Some buffered
         else if buffered NewCommitReadyChan < chan_cap NewCommitReadyChan
         then Some (buffered(NewCommitReadyChan := buffered NewCommitReadyChan + 1))
         else None)"
    if "AppendEntries now args reply cm = Inr (cm2, r, tr2)"
    using a1 [OF that] by auto
  from s a1 a2 a3 show ?thesis by blast
qed

theorem sends_of_Submit_and_AppendEntries_witness:
  "(\<exists>cm'. Submit toy_gob 121 example_leader = Inr (cm', True, [Lock, Unlock, Send TriggerAEChan])) \<and>
   sends_outside_mutex False [Lock, Unlock, Send TriggerAEChan] \<and>
   run_sends (\<lambda>c. 0) [Lock, Unlock, Send TriggerAEChan] = Some ((\<lambda>c. 0)(TriggerAEChan := 1)) \<and>
   run_sends chan_cap [Lock, Unlock, Send TriggerAEChan] = None \<and>
   (\<exists>cm2. AppendEntries 9 example_append \<lparr>aer_Term = 0, Success = False\<rparr> example_follower =
      Inr (cm2, \<lparr>aer_Term = 2, Success = True\<rparr>, [Lock, Send NewCommitReadyChan, Unlock])) \<and>
   state example_follower \<noteq> Dead \<and>
   Success \<lparr>aer_Term = 2, Success = True\<rparr> \<and>
   LeaderCommit example_append > commitIndex example_follower \<and>
   run_sends (\<lambda>c. 0) [Lock, Send NewCommitReadyChan, Unlock] =
     Some ((\<lambda>c. 0)(NewCommitReadyChan := 1)) \<and>
   run_sends chan_cap [Lock, Send NewCommitReadyChan, Unlock] = None"
proof -
  obtain cm' where e1:
    "Submit toy_gob 121 example_leader = Inr (cm', True, [Lock, Unlock, Send TriggerAEChan])"
    by (simp add: Submit_def persistToStorage_def Let_def toy_gob_def example_leader_def)
  obtain cm2 where e2:
    "AppendEntries 9 example_append \<lparr>aer_Term = 0, Success = False\<rparr> example_follower =
      Inr (cm2, \<lparr>aer_Term = 2, Success = True\<rparr>, [Lock, Send NewCommitReadyChan, Unlock])"
    by (simp add: AppendEntries_def AppendEntries_accepted_def AppendEntries_scan.simps
        Let_def intMin_def example_follower_def example_append_def)
  have h: "state example_follower \<noteq> Dead"
    "Success \<lparr>aer_Term = 2, Success = True\<rparr>"
    "LeaderCommit example_append > commitIndex example_follower"
    by (simp_all add: example_follower_def example_append_def)
  note t0 = sends_of_Submit_and_AppendEntries
    [of toy_gob 121 example_leader cm' True "[Lock, Unlock, Send TriggerAEChan]" "\<lambda>c. 0"
        9 example_append "\<lparr>aer_Term = 0, Success = False\<rparr>" cm2
        "\<lparr>aer_Term = 2, Success = True\<rparr>" "[Lock, Send NewCommitReadyChan, Unlock]"]
  note tf = sends_of_Submit_and_AppendEntries
    [of toy_gob 121 example_leader cm' True "[Lock, Unlock, Send TriggerAEChan]" chan_cap
        9 example_append "\<lparr>aer_Term = 0, Success = False\<rparr>" cm2
        "\<lparr>aer_Term = 2, Success = True\<rparr>" "[Lock, Send NewCommitReadyChan, Unlock]"]
  have a: "sends_outside_mutex False [Lock, Unlock, Send TriggerAEChan]"
    using t0 e1 by blast
  have b: "run_sends (\<lambda>c. 0) [Lock, Unlock, Send TriggerAEChan] =
             Some ((\<lambda>c. 0)(TriggerAEChan := 1))"
    using t0 e1 by simp
  have c: "run_sends chan_cap [Lock, Unlock, Send TriggerAEChan] = None"
    using tf e1 by simp
  have d: "run_sends (\<lambda>c. 0) [Lock, Send NewCommitReadyChan, Unlock] =
             Some ((\<lambda>c. 0)(NewCommitReadyChan := 1))"
    using t0 e2 by simp
  have f: "run_sends chan_cap [Lock, Send NewCommitReadyChan, Unlock] = None"
    using tf e2 by simp
  from e1 e2 h a b c d f show ?thesis by (intro conjI exI)
qed

subsection \<open>Advancing the commit index\<close>

lemma commit_scan_negative: "i < 0 \<Longrightarrow> commit_scan i cm = Inl Panic"
  by (subst commit_scan.simps) simp

lemma reply_success_panics:
  assumes "state cm = Leader" and "aer_Term reply = savedCurrentTerm" and "Success reply"
    and "commitIndex cm < -1" and "- (2 ^ 63) \<le> commitIndex cm"
  shows "sendAppendEntries_reply now peerId ni entries savedCurrentTerm reply cm = Inl Panic"
proof -
  have "int64 (commitIndex cm + 1) = commitIndex cm + 1"
    using assms(4,5) by (intro int64_id) simp_all
  then show ?thesis
    using assms(1-4)
    by (simp add: sendAppendEntries_reply_def Let_def commit_scan_negative)
qed

text \<open>
  Claim C5: when the leader processes a successful AppendEntries reply, it sets
  \<open>commitIndex\<close> to an index \<open>i\<close> only if \<open>log[i].term\<close> is \<open>currentTerm\<close> and the number
  of replicas, itself included, whose \<open>matchIndex\<close> is at least \<open>i\<close> satisfies
  \<open>2 * count > len(peerIds) + 1\<close> (\<open>spec_committable\<close>, with the \<open>matchIndex\<close> the reply
  has just updated); the scan runs from \<open>commitIndex + 1\<close> to \<open>len(log) - 1\<close>, so an
  entry of an earlier term is never committed by counting.

  The theorem is for a leader whose \<open>commitIndex\<close> is a 64-bit value from -1 upwards, as
  the constructor and both writers of \<open>commitIndex\<close> leave it (below -1 the first read of
  \<open>log[i]\<close> panics, the lemma above). It also says that the scan
  misses nothing: no index of the range above the new \<open>commitIndex\<close> qualifies.
\<close>

theorem reply_success_commit:
  assumes leader: "state cm = Leader"
    and same_term: "aer_Term reply = savedCurrentTerm"
    and succ: "Success reply"
    and ci: "-1 \<le> commitIndex cm" "commitIndex cm + 1 < 2 ^ 63"
  shows "\<exists>cm' tr. sendAppendEntries_reply now peerId ni entries savedCurrentTerm reply cm
                    = Inr (cm', tr) \<and>
           log cm' = log cm \<and> currentTerm cm' = currentTerm cm \<and> peerIds cm' = peerIds cm \<and>
           matchIndex cm' =
             (matchIndex cm)(peerId \<mapsto> int64 (int64 (ni + int (length entries)) - 1)) \<and>
           (commitIndex cm' \<noteq> commitIndex cm \<longrightarrow>
              commitIndex cm < commitIndex cm' \<and> commitIndex cm' < int (length (log cm)) \<and>
              spec_committable cm' (commitIndex cm')) \<and>
           (\<forall>i. commitIndex cm < i \<and> i < int (length (log cm)) \<and> spec_committable cm' i
                \<longrightarrow> i \<le> commitIndex cm')"
proof -
  let ?cm2 = "cm\<lparr>nextIndex := (nextIndex cm)(peerId \<mapsto> int64 (ni + int (length entries))),
                matchIndex :=
                  (matchIndex cm)(peerId \<mapsto> int64 (int64 (ni + int (length entries)) - 1))\<rparr>"
  have start: "int64 (commitIndex cm + 1) = commitIndex cm + 1"
    using ci by (intro int64_id) simp_all
  have nneg: "0 \<le> commitIndex cm + 1" using ci by simp
  from commit_scan_props [of "commitIndex cm + 1" ?cm2, OF nneg]
  obtain c where scan: "commit_scan (commitIndex cm + 1) ?cm2 = Inr (?cm2\<lparr>commitIndex := c\<rparr>)"
    and alt: "(c = commitIndex cm \<and>
                (\<forall>j. commitIndex cm + 1 \<le> j \<and> j < int (length (log cm)) \<longrightarrow> \<not> spec_committable ?cm2 j)) \<or>
              (commitIndex cm + 1 \<le> c \<and> c < int (length (log cm)) \<and> spec_committable ?cm2 c \<and>
                (\<forall>j. c < j \<and> j < int (length (log cm)) \<longrightarrow> \<not> spec_committable ?cm2 j))"
    by auto
  let ?cm' = "?cm2\<lparr>commitIndex := c\<rparr>"
  have res: "\<exists>tr. sendAppendEntries_reply now peerId ni entries savedCurrentTerm reply cm
               = Inr (?cm', tr)"
    using leader same_term succ
    by (simp add: sendAppendEntries_reply_def Let_def map_get_def start scan)
  have p1: "commitIndex ?cm' \<noteq> commitIndex cm \<longrightarrow>
              commitIndex cm < commitIndex ?cm' \<and> commitIndex ?cm' < int (length (log cm)) \<and>
              spec_committable ?cm' (commitIndex ?cm')"
    using alt by auto
  have p2: "\<forall>i. commitIndex cm < i \<and> i < int (length (log cm)) \<and> spec_committable ?cm' i
                \<longrightarrow> i \<le> commitIndex ?cm'"
  proof (intro allI impI)
    fix i assume i: "commitIndex cm < i \<and> i < int (length (log cm)) \<and> spec_committable ?cm' i"
    then have q: "spec_committable ?cm2 i" by simp
    from alt show "i \<le> commitIndex ?cm'"
    proof
      assume "c = commitIndex cm \<and>
                (\<forall>j. commitIndex cm + 1 \<le> j \<and> j < int (length (log cm)) \<longrightarrow> \<not> spec_committable ?cm2 j)"
      with i q show ?thesis by auto
    next
      assume "commitIndex cm + 1 \<le> c \<and> c < int (length (log cm)) \<and> spec_committable ?cm2 c \<and>
                (\<forall>j. c < j \<and> j < int (length (log cm)) \<longrightarrow> \<not> spec_committable ?cm2 j)"
      with i q have "\<not> c < i" by auto
      then show ?thesis by simp
    qed
  qed
  from res obtain tr where
    "sendAppendEntries_reply now peerId ni entries savedCurrentTerm reply cm = Inr (?cm', tr)"
    by blast
  with p1 p2 show ?thesis
    by (intro exI [of _ ?cm'] exI [of _ tr]) simp
qed

theorem reply_success_commit_witness:
  "state example_leader = Leader \<and>
   aer_Term \<lparr>aer_Term = 1, Success = True\<rparr> = 1 \<and>
   Success \<lparr>aer_Term = 1, Success = True\<rparr> \<and>
   -1 \<le> commitIndex example_leader \<and> commitIndex example_leader + 1 < 2 ^ 63 \<and>
   (\<exists>cm' tr. sendAppendEntries_reply 9 1 0 [\<lparr>Command = 120, Term = 1\<rparr>] 1
                 \<lparr>aer_Term = 1, Success = True\<rparr> example_leader = Inr (cm', tr) \<and>
      commitIndex cm' = 0 \<and> commitIndex cm' \<noteq> commitIndex example_leader \<and>
      commitIndex example_leader < commitIndex cm' \<and>
      commitIndex cm' < int (length (log example_leader)) \<and>
      spec_committable cm' (commitIndex cm'))"
proof -
  have h1: "state example_leader = Leader" by (simp add: example_leader_def)
  have h2: "aer_Term \<lparr>aer_Term = 1, Success = True\<rparr> = 1" by simp
  have h3: "Success \<lparr>aer_Term = 1, Success = True\<rparr>" by simp
  have h4: "-1 \<le> commitIndex example_leader" "commitIndex example_leader + 1 < 2 ^ 63"
    by (simp_all add: example_leader_def)
  have e: "sendAppendEntries_reply 9 1 0 [\<lparr>Command = 120, Term = 1\<rparr>] 1
             \<lparr>aer_Term = 1, Success = True\<rparr> example_leader =
           Inr (example_leader\<lparr>nextIndex := [1 \<mapsto> 0, 2 \<mapsto> 0, 1 \<mapsto> 1],
                  matchIndex := [1 \<mapsto> -1, 2 \<mapsto> -1, 1 \<mapsto> 0], commitIndex := 0\<rparr>,
                [Lock, Send NewCommitReadyChan, Send TriggerAEChan, Unlock])"
    by (simp add: sendAppendEntries_reply_def Let_def map_get_def int64_def
        commit_scan.simps example_leader_def)
  from reply_success_commit [OF h1 h2 h3 h4, of 9 1 0 "[\<lparr>Command = 120, Term = 1\<rparr>]"]
  obtain cm' tr where
    r: "sendAppendEntries_reply 9 1 0 [\<lparr>Command = 120, Term = 1\<rparr>] 1
          \<lparr>aer_Term = 1, Success = True\<rparr> example_leader = Inr (cm', tr)"
    and imp: "commitIndex cm' \<noteq> commitIndex example_leader \<longrightarrow>
              commitIndex example_leader < commitIndex cm' \<and>
              commitIndex cm' < int (length (log example_leader)) \<and>
              spec_committable cm' (commitIndex cm')"
    by blast
  from r e have ci: "commitIndex cm' = 0" by auto
  then have ne: "commitIndex cm' \<noteq> commitIndex example_leader"
    by (simp add: example_leader_def)
  with imp ci r have
    "\<exists>cm' tr. sendAppendEntries_reply 9 1 0 [\<lparr>Command = 120, Term = 1\<rparr>] 1
                 \<lparr>aer_Term = 1, Success = True\<rparr> example_leader = Inr (cm', tr) \<and>
      commitIndex cm' = 0 \<and> commitIndex cm' \<noteq> commitIndex example_leader \<and>
      commitIndex example_leader < commitIndex cm' \<and>
      commitIndex cm' < int (length (log example_leader)) \<and>
      spec_committable cm' (commitIndex cm')"
    by blast
  with h1 h2 h3 h4 show ?thesis by (intro conjI)
qed

subsection \<open>Granting a vote\<close>

text \<open>
  Claim C6: for every RequestVote call on a replica that is not Dead, after the term
  catch-up step (\<open>cm1\<close> below) the vote is granted if and only if \<open>currentTerm\<close> is
  \<open>args.term\<close>, \<open>votedFor\<close> is -1 or \<open>args.candidateId\<close>, and the candidate's log is at
  least as up to date as the replica's (\<open>args.lastLogTerm\<close> is greater than the term of
  the replica's last entry, or equal to it with \<open>args.lastLogIndex\<close> at least the
  replica's last index; both are -1 for an empty log). On grant \<open>votedFor\<close> becomes
  \<open>args.candidateId\<close>, and in all cases the reply carries the replica's \<open>currentTerm\<close>.
\<close>

theorem RequestVote_grant:
  assumes alive: "state cm \<noteq> Dead"
    and res: "RequestVote now args reply cm = (cm', r, tr)"
    and catch_up: "cm1 = (if rv_Term args > currentTerm cm
                          then becomeFollower now (rv_Term args) cm else cm)"
    and ours: "ourLastLogIndex = int (length (log cm)) - 1"
      "ourLastLogTerm = (if log cm = [] then -1 else Term (last (log cm)))"
  shows "(VotedGranted r \<longleftrightarrow>
            currentTerm cm1 = rv_Term args \<and>
            (votedFor cm1 = -1 \<or> votedFor cm1 = CandidateId args) \<and>
            (LastLogTerm args > ourLastLogTerm \<or>
              (LastLogTerm args = ourLastLogTerm \<and> LastLogIndex args \<ge> ourLastLogIndex))) \<and>
         (VotedGranted r \<longrightarrow> votedFor cm' = CandidateId args) \<and>
         (\<not> VotedGranted r \<longrightarrow> cm' = cm1) \<and>
         rvr_Term r = currentTerm cm' \<and>
         currentTerm cm' = max (currentTerm cm) (rv_Term args)"
proof -
  have last: "lastLogIndexAndTerm cm = (ourLastLogIndex, ourLastLogTerm)"
    using ours by (cases "log cm" rule: rev_cases) (simp_all add: lastLogIndexAndTerm_def)
  show ?thesis
    using alive res catch_up
    by (auto simp: RequestVote_def last Let_def becomeFollower_def split: if_splits)
qed

theorem RequestVote_grant_witness:
  "state example_follower \<noteq> Dead \<and>
   RequestVote 9 \<lparr>rv_Term = 3, CandidateId = 2, LastLogIndex = 1, LastLogTerm = 2\<rparr>
       \<lparr>rvr_Term = 0, VotedGranted = False\<rparr> example_follower =
     (example_follower\<lparr>currentTerm := 3, votedFor := 2, electionResetEvent := 9\<rparr>,
      \<lparr>rvr_Term = 3, VotedGranted = True\<rparr>, [Lock, Unlock]) \<and>
   currentTerm (becomeFollower 9 3 example_follower) = 3 \<and>
   votedFor (becomeFollower 9 3 example_follower) = -1 \<and>
   int (length (log example_follower)) - 1 = 1 \<and>
   Term (last (log example_follower)) = 1 \<and>
   VotedGranted \<lparr>rvr_Term = 3, VotedGranted = True\<rparr> \<and>
   votedFor (example_follower\<lparr>currentTerm := 3, votedFor := 2, electionResetEvent := 9\<rparr>) = 2 \<and>
   rvr_Term \<lparr>rvr_Term = 3, VotedGranted = True\<rparr> =
     currentTerm (example_follower\<lparr>currentTerm := 3, votedFor := 2, electionResetEvent := 9\<rparr>) \<and>
   currentTerm (example_follower\<lparr>currentTerm := 3, votedFor := 2, electionResetEvent := 9\<rparr>) = 3"
proof -
  let ?args = "\<lparr>rv_Term = 3, CandidateId = 2, LastLogIndex = 1, LastLogTerm = 2\<rparr>"
  let ?cm' = "example_follower\<lparr>currentTerm := 3, votedFor := 2, electionResetEvent := 9\<rparr>"
  let ?r = "\<lparr>rvr_Term = 3, VotedGranted = True\<rparr>"
  have h1: "state example_follower \<noteq> Dead"
    by (simp add: example_follower_def)
  have h2: "RequestVote 9 ?args \<lparr>rvr_Term = 0, VotedGranted = False\<rparr> example_follower =
              (?cm', ?r, [Lock, Unlock])"
    by (simp add: RequestVote_def lastLogIndexAndTerm_def becomeFollower_def Let_def
        example_follower_def)
  have h3: "becomeFollower 9 3 example_follower =
              (if rv_Term ?args > currentTerm example_follower
               then becomeFollower 9 (rv_Term ?args) example_follower else example_follower)"
    by (simp add: example_follower_def)
  have h4: "(1::int) = int (length (log example_follower)) - 1"
    "(1::int) = (if log example_follower = [] then -1 else Term (last (log example_follower)))"
    by (simp_all add: example_follower_def)
  note t = RequestVote_grant [OF h1 h2 h3 h4]
  have g: "VotedGranted ?r" by simp
  from t g have a: "votedFor ?cm' = 2" by simp
  from t have b: "rvr_Term ?r = currentTerm ?cm'" by blast
  from t have c: "currentTerm ?cm' = 3" by (simp add: example_follower_def)
  have d: "currentTerm (becomeFollower 9 3 example_follower) = 3"
    "votedFor (becomeFollower 9 3 example_follower) = -1"
    "int (length (log example_follower)) - 1 = 1"
    "Term (last (log example_follower)) = 1"
    by (simp_all add: becomeFollower_def example_follower_def)
  from h1 h2 d g a b c show ?thesis by (intro conjI)
qed

subsection \<open>The consistency check and the reconciliation of the log\<close>

text \<open>
  Claim C7: for every AppendEntries call on a replica that is not Dead with \<open>args.term\<close>
  equal to \<open>currentTerm\<close>, the request is accepted (the reply has \<open>success = true\<close>) if
  and only if \<open>prevLogIndex\<close> is -1, or \<open>prevLogIndex < len(log)\<close> and
  \<open>log[prevLogIndex].term = prevLogTerm\<close> (\<open>spec_consistent\<close>); on accept the log is
  reconciled: the handler advances from \<open>prevLogIndex + 1\<close> while the terms of the existing
  and the incoming entries match, truncates the log at the first divergence and appends
  the remaining incoming entries (\<open>spec_reconcile\<close>).

  The theorem adds what the handler does otherwise: with \<open>prevLogIndex\<close> from -1 upwards
  and a failed check it replies \<open>(currentTerm, false)\<close> and keeps the log; with
  \<open>prevLogIndex\<close> below -1 the read of \<open>log[prevLogIndex]\<close> panics and there is no reply.
\<close>

theorem AppendEntries_consistency_check:
  assumes alive: "state cm \<noteq> Dead" and tm: "ae_Term args = currentTerm cm"
  shows "((\<exists>cm' r tr. AppendEntries now args reply cm = Inr (cm', r, tr) \<and> Success r) \<longleftrightarrow>
            spec_consistent (log cm) (PrevLogIndex args) (PrevLogTerm args)) \<and>
         (spec_consistent (log cm) (PrevLogIndex args) (PrevLogTerm args) \<longrightarrow>
            (\<exists>cm' r tr. AppendEntries now args reply cm = Inr (cm', r, tr) \<and> Success r \<and>
               log cm' = spec_reconcile (log cm) (PrevLogIndex args) (Entries args))) \<and>
         (\<not> spec_consistent (log cm) (PrevLogIndex args) (PrevLogTerm args) \<and>
            -1 \<le> PrevLogIndex args \<longrightarrow>
            (\<exists>cm' tr. AppendEntries now args reply cm =
               Inr (cm', \<lparr>aer_Term = currentTerm cm, Success = False\<rparr>, tr) \<and> log cm' = log cm)) \<and>
         (PrevLogIndex args < -1 \<longrightarrow> AppendEntries now args reply cm = Inl Panic)"
proof -
  have le: "currentTerm cm \<le> ae_Term args" using tm by simp
  have a: "\<exists>cm' r tr. AppendEntries now args reply cm = Inr (cm', r, tr) \<and> Success r \<and>
             log cm' = spec_reconcile (log cm) (PrevLogIndex args) (Entries args)"
    if "spec_consistent (log cm) (PrevLogIndex args) (PrevLogTerm args)"
    using AppendEntries_accept [OF alive le that, of now reply] by auto
  have b: "spec_consistent (log cm) (PrevLogIndex args) (PrevLogTerm args)"
    if "\<exists>cm' r tr. AppendEntries now args reply cm = Inr (cm', r, tr) \<and> Success r"
    using that AppendEntries_Success_D [OF alive] by blast
  have c: "\<exists>cm' tr. AppendEntries now args reply cm =
               Inr (cm', \<lparr>aer_Term = currentTerm cm, Success = False\<rparr>, tr) \<and> log cm' = log cm"
    if "\<not> spec_consistent (log cm) (PrevLogIndex args) (PrevLogTerm args)"
      and "-1 \<le> PrevLogIndex args"
    using that alive tm
    by (auto simp: AppendEntries_def Let_def becomeFollower_def spec_consistent_def)
  have d: "AppendEntries now args reply cm = Inl Panic" if "PrevLogIndex args < -1"
    using that alive tm
    by (auto simp: AppendEntries_def Let_def becomeFollower_def)
  from a b c d show ?thesis by blast
qed

theorem AppendEntries_consistency_check_witness:
  "state example_follower \<noteq> Dead \<and>
   ae_Term example_append = currentTerm example_follower \<and>
   spec_consistent (log example_follower) (PrevLogIndex example_append)
     (PrevLogTerm example_append) \<and>
   (\<exists>cm' r tr. AppendEntries 9 example_append \<lparr>aer_Term = 0, Success = False\<rparr>
        example_follower = Inr (cm', r, tr) \<and> Success r) \<and>
   (\<exists>cm' r tr. AppendEntries 9 example_append \<lparr>aer_Term = 0, Success = False\<rparr>
        example_follower = Inr (cm', r, tr) \<and>
      log cm' = [\<lparr>Command = 120, Term = 1\<rparr>, \<lparr>Command = 122, Term = 2\<rparr>]) \<and>
   \<not> spec_consistent (log example_follower) (PrevLogIndex (example_append\<lparr>PrevLogIndex := 5\<rparr>))
     (PrevLogTerm (example_append\<lparr>PrevLogIndex := 5\<rparr>)) \<and>
   (\<exists>cm' tr. AppendEntries 9 (example_append\<lparr>PrevLogIndex := 5\<rparr>)
        \<lparr>aer_Term = 0, Success = False\<rparr> example_follower =
          Inr (cm', \<lparr>aer_Term = currentTerm example_follower, Success = False\<rparr>, tr) \<and>
      log cm' = log example_follower) \<and>
   AppendEntries 9 (example_append\<lparr>PrevLogIndex := -2\<rparr>)
        \<lparr>aer_Term = 0, Success = False\<rparr> example_follower = Inl Panic"
proof -
  have h1: "state example_follower \<noteq> Dead"
    by (simp add: example_follower_def)
  have h2: "ae_Term example_append = currentTerm example_follower"
    "ae_Term (example_append\<lparr>PrevLogIndex := 5\<rparr>) = currentTerm example_follower"
    "ae_Term (example_append\<lparr>PrevLogIndex := -2\<rparr>) = currentTerm example_follower"
    by (simp_all add: example_follower_def example_append_def)
  have h3: "spec_consistent (log example_follower) (PrevLogIndex example_append)
              (PrevLogTerm example_append)"
    by (simp add: spec_consistent_def example_follower_def example_append_def)
  have h4: "\<not> spec_consistent (log example_follower)
                (PrevLogIndex (example_append\<lparr>PrevLogIndex := 5\<rparr>))
                (PrevLogTerm (example_append\<lparr>PrevLogIndex := 5\<rparr>))"
    "-1 \<le> PrevLogIndex (example_append\<lparr>PrevLogIndex := 5\<rparr>)"
    "PrevLogIndex (example_append\<lparr>PrevLogIndex := -2\<rparr>) < -1"
    by (simp_all add: spec_consistent_def example_follower_def example_append_def)
  have r: "spec_reconcile (log example_follower) (PrevLogIndex example_append)
             (Entries example_append) =
           [\<lparr>Command = 120, Term = 1\<rparr>, \<lparr>Command = 122, Term = 2\<rparr>]"
    by (simp add: spec_reconcile_def Let_def example_follower_def example_append_def)
  note t1 = AppendEntries_consistency_check [OF h1 h2(1), of 9 "\<lparr>aer_Term = 0, Success = False\<rparr>"]
  note t2 = AppendEntries_consistency_check [OF h1 h2(2), of 9 "\<lparr>aer_Term = 0, Success = False\<rparr>"]
  note t3 = AppendEntries_consistency_check [OF h1 h2(3), of 9 "\<lparr>aer_Term = 0, Success = False\<rparr>"]
  from t1 h3 have a: "\<exists>cm' r tr. AppendEntries 9 example_append \<lparr>aer_Term = 0, Success = False\<rparr>
        example_follower = Inr (cm', r, tr) \<and> Success r"
    by blast
  from t1 h3 have b: "\<exists>cm' r tr. AppendEntries 9 example_append \<lparr>aer_Term = 0, Success = False\<rparr>
        example_follower = Inr (cm', r, tr) \<and>
      log cm' = spec_reconcile (log example_follower) (PrevLogIndex example_append)
             (Entries example_append)"
    by blast
  from t2 h4(1,2) have c: "\<exists>cm' tr. AppendEntries 9 (example_append\<lparr>PrevLogIndex := 5\<rparr>)
        \<lparr>aer_Term = 0, Success = False\<rparr> example_follower =
          Inr (cm', \<lparr>aer_Term = currentTerm example_follower, Success = False\<rparr>, tr) \<and>
      log cm' = log example_follower"
    by blast
  from t3 h4(3) have d: "AppendEntries 9 (example_append\<lparr>PrevLogIndex := -2\<rparr>)
        \<lparr>aer_Term = 0, Success = False\<rparr> example_follower = Inl Panic"
    by blast
  from h1 h2(1) h3 a b c d h4(1) show ?thesis
    unfolding r by (intro conjI)
qed

subsection \<open>Replaying an AppendEntries request\<close>

text \<open>
  Claim C8: the reconciliation of AppendEntries is idempotent. For every replica state and
  every accepted AppendEntries request, handling the same request a second time right
  after the first leaves the log unchanged. (The second call may come at another time
  and with another reply record; it is accepted again.)
\<close>

theorem AppendEntries_idempotent:
  assumes alive: "state cm \<noteq> Dead"
    and res: "AppendEntries now args reply cm = Inr (cm1, r1, tr1)"
    and succ: "Success r1"
  shows "\<exists>cm2 tr2. AppendEntries now' args reply' cm1 =
            Inr (cm2, \<lparr>aer_Term = ae_Term args, Success = True\<rparr>, tr2) \<and>
          log cm2 = log cm1"
proof -
  from AppendEntries_Success_D [OF alive res succ]
  have tm: "currentTerm cm \<le> ae_Term args"
    and ok: "spec_consistent (log cm) (PrevLogIndex args) (PrevLogTerm args)"
    by simp_all
  from AppendEntries_accept [OF alive tm ok, of now reply] res
  have lg1: "log cm1 = spec_reconcile (log cm) (PrevLogIndex args) (Entries args)"
    and st1: "state cm1 = Follower" and tm1: "currentTerm cm1 = ae_Term args"
    by auto
  have alive1: "state cm1 \<noteq> Dead" using st1 by simp
  have le1: "currentTerm cm1 \<le> ae_Term args" using tm1 by simp
  have ok1: "spec_consistent (log cm1) (PrevLogIndex args) (PrevLogTerm args)"
    unfolding lg1 by (rule spec_reconcile_consistent [OF ok])
  from AppendEntries_accept [OF alive1 le1 ok1, of now' reply']
  obtain cm2 tr2 where
    "AppendEntries now' args reply' cm1 =
       Inr (cm2, \<lparr>aer_Term = ae_Term args, Success = True\<rparr>, tr2)"
    and "log cm2 = spec_reconcile (log cm1) (PrevLogIndex args) (Entries args)"
    by blast
  moreover have "spec_reconcile (log cm1) (PrevLogIndex args) (Entries args) = log cm1"
    unfolding lg1 by (rule spec_reconcile_idem [OF ok])
  ultimately show ?thesis by simp
qed

theorem AppendEntries_idempotent_witness:
  "state example_follower \<noteq> Dead \<and>
   AppendEntries 9 example_append \<lparr>aer_Term = 0, Success = False\<rparr> example_follower =
     Inr (example_follower\<lparr>electionResetEvent := 9,
            log := [\<lparr>Command = 120, Term = 1\<rparr>, \<lparr>Command = 122, Term = 2\<rparr>],
            commitIndex := 1\<rparr>,
          \<lparr>aer_Term = 2, Success = True\<rparr>, [Lock, Send NewCommitReadyChan, Unlock]) \<and>
   Success \<lparr>aer_Term = 2, Success = True\<rparr> \<and>
   (\<exists>cm2 tr2.
      AppendEntries 10 example_append \<lparr>aer_Term = 0, Success = False\<rparr>
        (example_follower\<lparr>electionResetEvent := 9,
            log := [\<lparr>Command = 120, Term = 1\<rparr>, \<lparr>Command = 122, Term = 2\<rparr>],
            commitIndex := 1\<rparr>) =
        Inr (cm2, \<lparr>aer_Term = ae_Term example_append, Success = True\<rparr>, tr2) \<and>
      log cm2 = log (example_follower\<lparr>electionResetEvent := 9,
            log := [\<lparr>Command = 120, Term = 1\<rparr>, \<lparr>Command = 122, Term = 2\<rparr>],
            commitIndex := 1\<rparr>))"
proof -
  have h1: "state example_follower \<noteq> Dead"
    by (simp add: example_follower_def)
  have h2: "AppendEntries 9 example_append \<lparr>aer_Term = 0, Success = False\<rparr> example_follower =
     Inr (example_follower\<lparr>electionResetEvent := 9,
            log := [\<lparr>Command = 120, Term = 1\<rparr>, \<lparr>Command = 122, Term = 2\<rparr>],
            commitIndex := 1\<rparr>,
          \<lparr>aer_Term = 2, Success = True\<rparr>, [Lock, Send NewCommitReadyChan, Unlock])"
    by (simp add: AppendEntries_def AppendEntries_accepted_def AppendEntries_scan.simps
        Let_def intMin_def example_follower_def example_append_def)
  have h3: "Success \<lparr>aer_Term = 2, Success = True\<rparr>" by simp
  from AppendEntries_idempotent [OF h1 h2 h3, of 10 "\<lparr>aer_Term = 0, Success = False\<rparr>"] h1 h2 h3
  show ?thesis by (intro conjI)
qed

subsection \<open>Submit\<close>

lemma Submit_fatal:
  assumes "state cm = Leader"
    and "encodeInt enc (currentTerm cm) = None \<or> encodeInt enc (votedFor cm) = None \<or>
         encodeLog enc (log cm @ [\<lparr>Command = command, Term = currentTerm cm\<rparr>]) = None"
  shows "Submit enc command cm = Inl Fatal"
  using assms by (auto simp: Submit_def persistToStorage_def Let_def split: option.splits)

text \<open>
  Claim C9: \<open>Submit(command)\<close> returns true if and only if the state of the replica is
  Leader at the time of the call; when it returns true, exactly the entry
  \<open>LogEntry{command, currentTerm}\<close> has been appended to the log; when it returns false,
  no field of the replica has changed.

  The first part of the theorem is the claim, for every call that returns: the value
  returned is true exactly on a leader; with true, the log has grown by that one entry and
  the record has changed in \<open>log\<close> and, by the persisting, in \<open>storage\<close> only; with false,
  the record is the one before the call. The other two parts say when the call returns: on
  a replica that is not the leader always, and on a leader whenever gob encodes the three
  persistent values (an encoding error ends the process, \<open>Submit_fatal\<close>). The send on the
  "trigger append" channel, after the unlock, is the last operation of the call.
\<close>

theorem Submit_spec:
  "(Submit enc command cm = Inr (cm', ok, tr) \<longrightarrow>
      (ok \<longleftrightarrow> state cm = Leader) \<and>
      (ok \<longrightarrow> log cm' = log cm @ [\<lparr>Command = command, Term = currentTerm cm\<rparr>] \<and>
              cm'\<lparr>log := log cm, storage := storage cm\<rparr> = cm) \<and>
      (\<not> ok \<longrightarrow> cm' = cm)) \<and>
   (state cm \<noteq> Leader \<longrightarrow> Submit enc command cm = Inr (cm, False, [Lock, Unlock])) \<and>
   (state cm = Leader \<and>
    encodeInt enc (currentTerm cm) \<noteq> None \<and> encodeInt enc (votedFor cm) \<noteq> None \<and>
    encodeLog enc (log cm @ [\<lparr>Command = command, Term = currentTerm cm\<rparr>]) \<noteq> None \<longrightarrow>
      (\<exists>cm''. Submit enc command cm = Inr (cm'', True, [Lock, Unlock, Send TriggerAEChan])))"
proof -
  have a: "(ok \<longleftrightarrow> state cm = Leader) \<and>
      (ok \<longrightarrow> log cm' = log cm @ [\<lparr>Command = command, Term = currentTerm cm\<rparr>] \<and>
              cm'\<lparr>log := log cm, storage := storage cm\<rparr> = cm) \<and>
      (\<not> ok \<longrightarrow> cm' = cm)"
    if "Submit enc command cm = Inr (cm', ok, tr)"
    using that
    by (auto simp: Submit_def persistToStorage_def Let_def split: if_splits option.splits)
  have b: "Submit enc command cm = Inr (cm, False, [Lock, Unlock])" if "state cm \<noteq> Leader"
    using that by (simp add: Submit_def)
  have c: "\<exists>cm''. Submit enc command cm = Inr (cm'', True, [Lock, Unlock, Send TriggerAEChan])"
    if "state cm = Leader" and "encodeInt enc (currentTerm cm) \<noteq> None"
      and "encodeInt enc (votedFor cm) \<noteq> None"
      and "encodeLog enc (log cm @ [\<lparr>Command = command, Term = currentTerm cm\<rparr>]) \<noteq> None"
    using that by (auto simp: Submit_def persistToStorage_def Let_def)
  from a b c show ?thesis by blast
qed

theorem Submit_spec_witness:
  "state example_leader = Leader \<and>
   encodeInt toy_gob (currentTerm example_leader) \<noteq> None \<and>
   encodeInt toy_gob (votedFor example_leader) \<noteq> None \<and>
   encodeLog toy_gob (log example_leader @ [\<lparr>Command = 121, Term = currentTerm example_leader\<rparr>])
     \<noteq> None \<and>
   (\<exists>cm'. Submit toy_gob 121 example_leader = Inr (cm', True, [Lock, Unlock, Send TriggerAEChan]) \<and>
      log cm' = [\<lparr>Command = 120, Term = 1\<rparr>, \<lparr>Command = 121, Term = 1\<rparr>] \<and>
      cm'\<lparr>log := log example_leader, storage := storage example_leader\<rparr> = example_leader) \<and>
   state example_follower \<noteq> Leader \<and>
   Submit toy_gob 121 example_follower = Inr (example_follower, False, [Lock, Unlock])"
proof -
  have h1: "state example_leader = Leader" by (simp add: example_leader_def)
  have h2: "encodeInt toy_gob (currentTerm example_leader) \<noteq> None"
    "encodeInt toy_gob (votedFor example_leader) \<noteq> None"
    "encodeLog toy_gob
       (log example_leader @ [\<lparr>Command = 121, Term = currentTerm example_leader\<rparr>]) \<noteq> None"
    by (simp_all add: toy_gob_def)
  have h3: "state example_follower \<noteq> Leader" by (simp add: example_follower_def)
  have l: "log example_leader @ [\<lparr>Command = 121, Term = currentTerm example_leader\<rparr>] =
           [\<lparr>Command = 120, Term = 1\<rparr>, \<lparr>Command = 121, Term = 1\<rparr>]"
    by (simp add: example_leader_def)
  from Submit_spec [of toy_gob 121 example_leader] h1 h2
  obtain cm'' where
    r: "Submit toy_gob 121 example_leader = Inr (cm'', True, [Lock, Unlock, Send TriggerAEChan])"
    by blast
  from Submit_spec [of toy_gob 121 example_leader cm'' True "[Lock, Unlock, Send TriggerAEChan]"] r
  have p: "log cm'' = log example_leader @ [\<lparr>Command = 121, Term = currentTerm example_leader\<rparr>]"
    "cm''\<lparr>log := log example_leader, storage := storage example_leader\<rparr> = example_leader"
    by simp_all
  from r p have a:
    "\<exists>cm'. Submit toy_gob 121 example_leader = Inr (cm', True, [Lock, Unlock, Send TriggerAEChan]) \<and>
      log cm' = [\<lparr>Command = 120, Term = 1\<rparr>, \<lparr>Command = 121, Term = 1\<rparr>] \<and>
      cm'\<lparr>log := log example_leader, storage := storage example_leader\<rparr> = example_leader"
    unfolding l by blast
  from Submit_spec [of toy_gob 121 example_follower] h3
  have b: "Submit toy_gob 121 example_follower = Inr (example_follower, False, [Lock, Unlock])"
    by blast
  from h1 h2 h3 a b show ?thesis by (intro conjI)
qed

subsection \<open>A stale AppendEntries request\<close>

text \<open>
  Claim C10: for every AppendEntries call on a replica that is not Dead with \<open>args.term\<close>
  strictly less than \<open>currentTerm\<close>, the handler replies \<open>(currentTerm, false)\<close> and leaves
  the whole state of the replica unchanged: \<open>state\<close>, \<open>currentTerm\<close>, \<open>votedFor\<close>, \<open>log\<close>,
  \<open>commitIndex\<close> and \<open>electionResetEvent\<close> are as before the call. (The handler locks and
  unlocks the mutex and sends on no channel.)
\<close>

theorem AppendEntries_stale_term:
  assumes "state cm \<noteq> Dead" and "ae_Term args < currentTerm cm"
  shows "AppendEntries now args reply cm =
           Inr (cm, \<lparr>aer_Term = currentTerm cm, Success = False\<rparr>, [Lock, Unlock])"
  using assms by (simp add: AppendEntries_def Let_def)

theorem AppendEntries_stale_term_witness:
  "state example_follower \<noteq> Dead \<and>
   ae_Term (example_append\<lparr>ae_Term := 1\<rparr>) < currentTerm example_follower \<and>
   AppendEntries 9 (example_append\<lparr>ae_Term := 1\<rparr>) \<lparr>aer_Term = 0, Success = True\<rparr>
       example_follower =
     Inr (example_follower, \<lparr>aer_Term = 2, Success = False\<rparr>, [Lock, Unlock])"
proof -
  have h1: "state example_follower \<noteq> Dead"
    by (simp add: example_follower_def)
  have h2: "ae_Term (example_append\<lparr>ae_Term := 1\<rparr>) < currentTerm example_follower"
    by (simp add: example_follower_def)
  have c: "currentTerm example_follower = 2"
    by (simp add: example_follower_def)
  from AppendEntries_stale_term [OF h1 h2, of 9 "\<lparr>aer_Term = 0, Success = True\<rparr>"] h1 h2
  show ?thesis unfolding c by (intro conjI)
qed

end
